theory Spec2Isabelle
  imports Main "HOL-Library.Product_Lexorder" "HOL-Library.Multiset"
begin

section \<open>Calendar features (cell "for df in (weather, googletrend, train, test, trend_de)")\<close>

text \<open>
  A \<open>Date\<close> value of the notebook is a calendar day (the CSV files hold \<open>YYYY-MM-DD\<close>
  strings, cast to \<open>datetime64[ns]\<close>). A day is modelled by its civil fields; its position
  on the time line is the proleptic Gregorian day number, so that the difference of two
  dates followed by \<open>.dt.days\<close> is the difference of their day numbers.
\<close>

record civil =
  year :: int
  month :: nat
  day :: nat

definition is_leap :: "int \<Rightarrow> bool" where
  "is_leap y = (y mod 4 = 0 \<and> (y mod 100 \<noteq> 0 \<or> y mod 400 = 0))"

definition days_in_month :: "int \<Rightarrow> nat \<Rightarrow> nat" where
  "days_in_month y m =
     (if m = 2 then (if is_leap y then 29 else 28)
      else if m = 4 \<or> m = 6 \<or> m = 9 \<or> m = 11 then 30 else 31)"

definition valid_date :: "civil \<Rightarrow> bool" where
  "valid_date c = (1 \<le> month c \<and> month c \<le> 12 \<and> 1 \<le> day c \<and> day c \<le> days_in_month (year c) (month c))"

text \<open>Days of the year \<open>y\<close> that lie before the first day of month \<open>m\<close>.\<close>

definition days_before_month :: "int \<Rightarrow> nat \<Rightarrow> nat" where
  "days_before_month y m = sum_list (map (days_in_month y) [1..<m])"

definition days_before_year :: "int \<Rightarrow> int" where
  "days_before_year y = (y - 1) * 365 + (y - 1) div 4 - (y - 1) div 100 + (y - 1) div 400"

definition ordinal :: "civil \<Rightarrow> int" where
  "ordinal c = days_before_year (year c) + int (days_before_month (year c) (month c)) + int (day c)"

text \<open>
  \<open>df['Year'] = df.Date.dt.year.astype(str) + '-01-01'\<close>, read back as a date: the first
  of January of the row's year.
\<close>

definition Year_jan1 :: "civil \<Rightarrow> civil" where
  "Year_jan1 c = \<lparr>year = year c, month = 1, day = 1\<rparr>"

text \<open>\<open>(df['Date'] - df['Year'].astype('datetime64[ns]')).dt.days\<close>\<close>

definition days_since_jan1 :: "civil \<Rightarrow> int" where
  "days_since_jan1 c = ordinal c - ordinal (Year_jan1 c)"

text \<open>
  \<open>(days / 7).astype('int16')\<close>: the quotient is a float, the cast truncates it towards
  zero and keeps the low 16 bits as a signed number.
\<close>

definition trunc_div :: "int \<Rightarrow> int \<Rightarrow> int" where
  "trunc_div a b = (if 0 \<le> a then a div b else - ((- a) div b))"

definition astype_int16 :: "int \<Rightarrow> int" where
  "astype_int16 x = (x + 32768) mod 65536 - 32768"

text \<open>
  \<open>df['Week'] = (days / 7).astype('int16') + 1\<close>, then
  \<open>df['Week'] = df.Week.where(df['Week'] != 53, 52)\<close>: \<open>where\<close> keeps the value where the
  condition holds and puts 52 elsewhere.
\<close>

definition Week_raw :: "civil \<Rightarrow> int" where
  "Week_raw c = astype_int16 (astype_int16 (trunc_div (days_since_jan1 c) 7) + 1)"

definition Week :: "civil \<Rightarrow> int" where
  "Week c = (if Week_raw c \<noteq> 53 then Week_raw c else 52)"

section \<open>Errors raised by the dataframe operations\<close>

text \<open>
  The notebook has no \<open>raise\<close> of its own; what can fail are the dataframe operations it
  calls: assigning an index of the wrong length (\<open>ValueError\<close>), reading a row label that
  does not exist (\<open>KeyError\<close>) and slicing with a bound that is not an integer
  (\<open>TypeError\<close>).
\<close>

datatype error = ValueError | KeyError | TypeError

section \<open>Left outer join (function \<open>merge\<close>)\<close>

text \<open>
  \<open>df.merge(right, how='left', left_on=left_on, right_on=right_on or left_on, ...)\<close>.
  A table is the list of its rows, a key column set is the function reading the key of a
  row. An output row is a left row paired with one matching right row, or with nothing
  (the right-hand columns are then null) when no right row matches.
\<close>

definition matches :: "('b \<Rightarrow> 'k) \<Rightarrow> 'b list \<Rightarrow> 'k \<Rightarrow> 'b list" where
  "matches right_on right k = filter (\<lambda>r. right_on r = k) right"

definition merge :: "'a list \<Rightarrow> 'b list \<Rightarrow> ('a \<Rightarrow> 'k) \<Rightarrow> ('b \<Rightarrow> 'k) \<Rightarrow> ('a \<times> 'b option) list" where
  "merge df right left_on right_on =
     concat (map (\<lambda>l. case matches right_on right (left_on l) of
                         [] \<Rightarrow> [(l, None)]
                       | ms \<Rightarrow> map (\<lambda>r. (l, Some r)) ms) df)"

section \<open>The assembled table\<close>

text \<open>
  The columns of the assembled table that the feature cells read. \<open>Store\<close> is the group
  key and \<open>Date\<close> the time key (a day number); either may be null. The three event
  columns hold 0/1 (\<open>StateHoliday\<close> is a boolean in the notebook, \<open>False == 0\<close>).
\<close>

record row =
  Store :: "int option"
  Date :: "int option"
  SchoolHoliday :: int
  StateHoliday :: int
  Promo :: int
  Sales :: int

text \<open>Sorting puts nulls last (\<open>na_position='last'\<close>), in ascending and in descending order.\<close>

definition na_last :: "int option \<Rightarrow> nat \<times> int" where
  "na_last v = (case v of None \<Rightarrow> (1, 0) | Some x \<Rightarrow> (0, x))"

definition na_last_desc :: "int option \<Rightarrow> nat \<times> int" where
  "na_last_desc v = (case v of None \<Rightarrow> (1, 0) | Some x \<Rightarrow> (0, - x))"

text \<open>\<open>df.sort_values(by=['Store', 'Date'])\<close>; ties keep their order.\<close>

definition sort_values_Store_Date :: "row list \<Rightarrow> row list" where
  "sort_values_Store_Date df = sort_key (\<lambda>r. (na_last (Store r), na_last (Date r))) df"

section \<open>Event distances (the \<open>get_elapsed\<close> cell)\<close>

text \<open>Subtraction of nullable values: a null operand gives null.\<close>

fun opt_sub :: "int option \<Rightarrow> int option \<Rightarrow> int option" where
  "opt_sub (Some a) (Some b) = Some (a - b)"
| "opt_sub _ _ = None"

text \<open>\<open>Series.diff()\<close>: null at the first position, then each value minus its predecessor.\<close>

definition diff :: "int option list \<Rightarrow> int option list" where
  "diff xs = (case xs of [] \<Rightarrow> [] | x # ys \<Rightarrow> None # map2 (\<lambda>prev cur. opt_sub cur prev) xs ys)"

text \<open>\<open>first_indices = pdf.Store.diff() != 0\<close>; a null differs from 0.\<close>

definition first_indices :: "row list \<Rightarrow> bool list" where
  "first_indices pdf = map (\<lambda>d. d \<noteq> Some 0) (diff (map Store pdf))"

text \<open>\<open>last_indices = pdf.Store.diff().iloc[1:].append(pd.Series([1]))\<close>\<close>

definition last_indices :: "row list \<Rightarrow> int option list" where
  "last_indices pdf = tl (diff (map Store pdf)) @ [Some 1]"

text \<open>
  The operand of \<open>|\<close> that is not boolean is made boolean first: null becomes False, any
  other number is True unless it is 0.
\<close>

definition fill_bool :: "int option \<Rightarrow> bool" where
  "fill_bool d = (case d of None \<Rightarrow> False | Some v \<Rightarrow> v \<noteq> 0)"

text \<open>
  \<open>last_indices.index = first_indices.index\<close> raises when the two lengths differ, then
  \<open>idx_mask = ~(first_indices | last_indices)\<close>.
\<close>

definition idx_mask :: "row list \<Rightarrow> error + bool list" where
  "idx_mask pdf =
     (if length (last_indices pdf) \<noteq> length (first_indices pdf) then Inl ValueError
      else Inr (map2 (\<lambda>f l. \<not> (f \<or> fill_bool l)) (first_indices pdf) (last_indices pdf)))"

text \<open>
  \<open>pdf['tmp'] = pdf.Date\<close>, then \<open>pdf.loc[(pdf[field] == 0) & idx_mask, 'tmp'] = nan\<close>.
  An event column is given by the function reading it from a row.
\<close>

definition tmp :: "(row \<Rightarrow> int) \<Rightarrow> row list \<Rightarrow> bool list \<Rightarrow> int option list" where
  "tmp field pdf msk = map2 (\<lambda>r m. if field r = 0 \<and> m then None else Date r) pdf msk"

text \<open>\<open>ffill\<close> carries the last value that is not null forward, \<open>bfill\<close> the next one backward.\<close>

fun ffill_from :: "'a option \<Rightarrow> 'a option list \<Rightarrow> 'a option list" where
  "ffill_from prev [] = []"
| "ffill_from prev (None # xs) = prev # ffill_from prev xs"
| "ffill_from prev (Some v # xs) = Some v # ffill_from (Some v) xs"

definition ffill :: "'a option list \<Rightarrow> 'a option list" where
  "ffill xs = ffill_from None xs"

fun bfill :: "'a option list \<Rightarrow> 'a option list" where
  "bfill [] = []"
| "bfill (Some v # xs) = Some v # bfill xs"
| "bfill (None # xs) = (case bfill xs of [] \<Rightarrow> [None] | y # ys \<Rightarrow> y # y # ys)"

text \<open>
  The two delta columns of one event field, as day counts:
  \<open>pdf['After'+field] = pdf['Date'] - pdf.tmp.ffill()\<close> and
  \<open>pdf['Before'+field] = pdf.tmp.bfill() - pdf['Date']\<close>.
\<close>

definition After :: "(row \<Rightarrow> int) \<Rightarrow> row list \<Rightarrow> bool list \<Rightarrow> int option list" where
  "After field pdf msk = map2 opt_sub (map Date pdf) (ffill (tmp field pdf msk))"

definition Before :: "(row \<Rightarrow> int) \<Rightarrow> row list \<Rightarrow> bool list \<Rightarrow> int option list" where
  "Before field pdf msk = map2 opt_sub (bfill (tmp field pdf msk)) (map Date pdf)"

text \<open>The cell for one field: the pairs \<open>(After, Before)\<close>, one for each row of \<open>pdf\<close>.\<close>

definition get_elapsed :: "(row \<Rightarrow> int) \<Rightarrow> row list \<Rightarrow> error + (int option \<times> int option) list" where
  "get_elapsed field pdf =
     (case idx_mask pdf of
        Inl e \<Rightarrow> Inl e
      | Inr msk \<Rightarrow> Inr (zip (After field pdf msk) (Before field pdf msk)))"

text \<open>The sort of the preceding cell followed by the cell itself.\<close>

definition event_distance :: "(row \<Rightarrow> int) \<Rightarrow> row list \<Rightarrow> error + (int option \<times> int option) list" where
  "event_distance field df = get_elapsed field (sort_values_Store_Date df)"

text \<open>
  The rows whose date stays in \<open>tmp\<close>: the mask of the cell, read at one position. These
  are the rows the deltas are measured from.
\<close>

definition anchor :: "(row \<Rightarrow> int) \<Rightarrow> row list \<Rightarrow> nat \<Rightarrow> bool" where
  "anchor field pdf i =
     (case idx_mask pdf of
        Inl e \<Rightarrow> False
      | Inr msk \<Rightarrow> i < length pdf \<and> \<not> (field (pdf ! i) = 0 \<and> msk ! i))"

text \<open>First and last row of a run of equal \<open>Store\<close> values, by position.\<close>

definition group_first :: "row list \<Rightarrow> nat \<Rightarrow> bool" where
  "group_first pdf i = (i = 0 \<or> Store (pdf ! i) \<noteq> Store (pdf ! (i - 1)))"

definition group_last :: "row list \<Rightarrow> nat \<Rightarrow> bool" where
  "group_last pdf i = (Suc i = length pdf \<or> Store (pdf ! Suc i) \<noteq> Store (pdf ! i))"

section \<open>Rolling sums (cell \<open>bwd\<close> / \<open>fwd\<close>)\<close>

text \<open>
  The cell runs on \<open>df\<close> with \<open>Date\<close> as its index. \<open>sort_index()\<close> orders the whole table
  by date, ascending or descending; rows with equal dates keep their order, nulls are last.
\<close>

definition sort_index :: "row list \<Rightarrow> row list" where
  "sort_index df = sort_key (\<lambda>r. na_last (Date r)) df"

definition sort_index_desc :: "row list \<Rightarrow> row list" where
  "sort_index_desc df = sort_key (\<lambda>r. na_last_desc (Date r)) df"

text \<open>
  \<open>groupby("Store")\<close>: one group for each store that occurs, in ascending order of the
  store; rows with a null store belong to no group. A group holds its rows in the order
  of the table.
\<close>

definition group_keys :: "row list \<Rightarrow> int list" where
  "group_keys df = sort (remdups (List.map_filter Store df))"

definition get_group :: "int \<Rightarrow> row list \<Rightarrow> row list" where
  "get_group s df = filter (\<lambda>r. Store r = Some s) df"

text \<open>
  \<open>rolling(w, min_periods=1).sum()\<close> over one column of a group: at position \<open>p\<close> the sum of
  the \<open>w\<close> values that end at \<open>p\<close>, or of all values up to \<open>p\<close> when there are fewer.
\<close>

definition rolling_sum :: "nat \<Rightarrow> int list \<Rightarrow> int list" where
  "rolling_sum w xs = map (\<lambda>p. sum_list (drop (Suc p - w) (take (Suc p) xs))) [0..<length xs]"

text \<open>
  The windowed sums of one group, each with the \<open>(Store, Date)\<close> pair of its row (the index
  of the result, made columns again by \<open>reset_index\<close>).
\<close>

definition row_key :: "row \<Rightarrow> int option \<times> int option" where
  "row_key r = (Store r, Date r)"

definition group_rolling :: "(row \<Rightarrow> int) \<Rightarrow> row list \<Rightarrow> ((int option \<times> int option) \<times> int) list" where
  "group_rolling field g = zip (map row_key g) (rolling_sum 7 (map field g))"

definition groupby_rolling :: "(row \<Rightarrow> int) \<Rightarrow> row list \<Rightarrow> ((int option \<times> int option) \<times> int) list" where
  "groupby_rolling field df = concat (map (\<lambda>s. group_rolling field (get_group s df)) (group_keys df))"

text \<open>
  \<open>bwd = df[...].sort_index().groupby("Store").rolling(7, min_periods=1).sum()\<close> and
  \<open>fwd = df[...].sort_index(ascending=False).groupby("Store").rolling(7, min_periods=1).sum()\<close>,
  for one event column.
\<close>

definition bwd :: "(row \<Rightarrow> int) \<Rightarrow> row list \<Rightarrow> ((int option \<times> int option) \<times> int) list" where
  "bwd field df = groupby_rolling field (sort_index df)"

definition fwd :: "(row \<Rightarrow> int) \<Rightarrow> row list \<Rightarrow> ((int option \<times> int option) \<times> int) list" where
  "fwd field df = groupby_rolling field (sort_index_desc df)"

text \<open>The rows of one store in a table of sums.\<close>

definition of_store :: "int \<Rightarrow> ((int option \<times> int option) \<times> int) list \<Rightarrow> ((int option \<times> int option) \<times> int) list" where
  "of_store s t = filter (\<lambda>kv. fst (fst kv) = Some s) t"

text \<open>
  The leading window in the words of the specification: the sum of the \<open>w\<close> values from the
  current position on.
\<close>

definition leading_window_sum :: "nat \<Rightarrow> int list \<Rightarrow> nat \<Rightarrow> int" where
  "leading_window_sum w xs i = sum_list (take w (drop i xs))"

section \<open>Train / validation split\<close>

text \<open>
  \<open>train_df = train_df[train_df.Sales != 0]\<close>, \<open>train_df.sort_values(by='Date')\<close>,
  \<open>reset_index(drop=True)\<close>: the row labels are the positions again.
\<close>

definition sort_values_Date :: "row list \<Rightarrow> row list" where
  "sort_values_Date df = sort_key (\<lambda>r. na_last (Date r)) df"

definition prepare_train :: "row list \<Rightarrow> row list" where
  "prepare_train train_df = sort_values_Date (filter (\<lambda>r. Sales r \<noteq> 0) train_df)"

text \<open>
  \<open>cut = train_df['Date'][train_df['Date'] == train_df['Date'][len(test_df)]].index.max()\<close>:
  the last position that holds the date found at position \<open>len(test_df)\<close>. Reading a
  position that does not exist raises \<open>KeyError\<close>; a null date equals nothing, the maximum
  of no position is not a number and the slices that follow reject it.
\<close>

definition cut :: "row list \<Rightarrow> row list \<Rightarrow> error + nat" where
  "cut train_df test_df =
     (if length train_df \<le> length test_df then Inl KeyError
      else (case filter (\<lambda>i. Date (train_df ! i) \<noteq> None
                              \<and> Date (train_df ! i) = Date (train_df ! length test_df))
                  [0..<length train_df] of
              [] \<Rightarrow> Inl TypeError
            | i # is \<Rightarrow> Inr (last (i # is))))"

text \<open>
  The slices \<open>df[-n:]\<close> and \<open>df[:-n]\<close> for \<open>n \<ge> 0\<close>. A negative bound counts from the
  end, and \<open>-0\<close> is \<open>0\<close>, the start of the table.
\<close>

definition slice_from_minus :: "nat \<Rightarrow> 'a list \<Rightarrow> 'a list" where
  "slice_from_minus n df = (if n = 0 then df else drop (length df - n) df)"

definition slice_to_minus :: "nat \<Rightarrow> 'a list \<Rightarrow> 'a list" where
  "slice_to_minus n df = (if n = 0 then [] else take (length df - n) df)"

text \<open>
  \<open>valid_df = train_df[-num_valid:]\<close>, \<open>train_df = train_df[:-num_valid]\<close>; the result is
  the pair \<open>(train_df, valid_df)\<close>.
\<close>

definition split :: "nat \<Rightarrow> row list \<Rightarrow> row list \<times> row list" where
  "split num_valid train_df = (slice_to_minus num_valid train_df, slice_from_minus num_valid train_df)"

definition train_valid :: "row list \<Rightarrow> row list \<Rightarrow> error + row list \<times> row list" where
  "train_valid train_df test_df =
     (case cut (prepare_train train_df) test_df of
        Inl e \<Rightarrow> Inl e
      | Inr num_valid \<Rightarrow> Inr (split num_valid (prepare_train train_df)))"

section \<open>The feature columns joined back onto the train and test tables\<close>

text \<open>The four derived columns of one event field \<open>F\<close>.\<close>

record features =
  After_F :: "int option"
  Before_F :: "int option"
  F_bw :: "int option"
  F_fw :: "int option"

text \<open>
  \<open>df = train_df.append(test_df)\<close> is sorted, gets its delta columns, then
  \<open>df.merge(bwd, on ['Date', 'Store'], how='left')\<close> and the same with \<open>fwd\<close>. A sum that
  found no partner row is null.
\<close>

definition add_features :: "(row \<Rightarrow> int) \<Rightarrow> row list \<Rightarrow> error + (row \<times> features) list" where
  "add_features field df =
     (case get_elapsed field (sort_values_Store_Date df) of
        Inl e \<Rightarrow> Inl e
      | Inr deltas \<Rightarrow>
          Inr (map (\<lambda>(((r, d), b), f).
                      (r, \<lparr>After_F = fst d, Before_F = snd d,
                           F_bw = map_option snd b, F_fw = map_option snd f\<rparr>))
                (merge
                  (merge (zip (sort_values_Store_Date df) deltas)
                     (bwd field (sort_values_Store_Date df)) (\<lambda>(r, d). row_key r) fst)
                  (fwd field (sort_values_Store_Date df)) (\<lambda>((r, d), b). row_key r) fst)))"

text \<open>
  \<open>train_df = merge(train_df, df, ['Store', 'Date'])\<close> and the same for \<open>test_df\<close>, where
  \<open>df\<close> was built from \<open>train_df.append(test_df)\<close>. The result pairs every row of the two
  tables with the derived columns of its partner in \<open>df\<close>.
\<close>

definition engineer ::
  "(row \<Rightarrow> int) \<Rightarrow> row list \<Rightarrow> row list
    \<Rightarrow> error + (row \<times> features option) list \<times> (row \<times> features option) list" where
  "engineer field train_df test_df =
     (case add_features field (train_df @ test_df) of
        Inl e \<Rightarrow> Inl e
      | Inr df \<Rightarrow>
          Inr (map (\<lambda>(l, m). (l, map_option snd m)) (merge train_df df row_key (\<lambda>(r, f). row_key r)),
               map (\<lambda>(l, m). (l, map_option snd m)) (merge test_df df row_key (\<lambda>(r, f). row_key r))))"


text \<open>The derived columns that the rows of the test table, and of the train table, end up with.\<close>

definition test_features :: "(row \<Rightarrow> int) \<Rightarrow> row list \<Rightarrow> row list \<Rightarrow> error + features option list" where
  "test_features field train_df test_df =
     (case engineer field train_df test_df of
        Inl e \<Rightarrow> Inl e
      | Inr (train_out, test_out) \<Rightarrow> Inr (map snd test_out))"

definition train_features :: "(row \<Rightarrow> int) \<Rightarrow> row list \<Rightarrow> row list \<Rightarrow> error + features option list" where
  "train_features field train_df test_df =
     (case engineer field train_df test_df of
        Inl e \<Rightarrow> Inl e
      | Inr (train_out, test_out) \<Rightarrow> Inr (map snd train_out))"

section \<open>Example tables\<close>


text \<open>A table with a null time key in one row and a null group key in another.\<close>

definition null_keys :: "row list" where
  "null_keys =
     [\<lparr>Store = Some 1, Date = None, SchoolHoliday = 0, StateHoliday = 0, Promo = 1, Sales = 5\<rparr>,
      \<lparr>Store = None, Date = Some 3, SchoolHoliday = 0, StateHoliday = 0, Promo = 0, Sales = 7\<rparr>,
      \<lparr>Store = Some 1, Date = Some 2, SchoolHoliday = 0, StateHoliday = 0, Promo = 0, Sales = 6\<rparr>]"



text \<open>One store over nine days, with a promotion on days 1, 3 and 9.\<close>

definition long_store :: "row list" where
  "long_store =
     map (\<lambda>d. \<lparr>Store = Some 1, Date = Some d, SchoolHoliday = 0, StateHoliday = 0,
                 Promo = (if d = 1 \<or> d = 3 \<or> d = 9 then 1 else 0), Sales = 3\<rparr>)
       [9, 8, 7, 6, 5, 4, 3, 2, 1]"

text \<open>Train table of two rows with different dates, both with sales.\<close>

definition two_days :: "row list" where
  "two_days =
     [\<lparr>Store = Some 1, Date = Some 2, SchoolHoliday = 0, StateHoliday = 0, Promo = 0, Sales = 5\<rparr>,
      \<lparr>Store = Some 1, Date = Some 1, SchoolHoliday = 0, StateHoliday = 0, Promo = 1, Sales = 7\<rparr>]"

text \<open>
  A train table for store 1 on days 1, 2, 4 and 5 and a test table with the row of day 3,
  all without promotion; then the same train table with a promotion on day 2, or on day 4,
  and the same test table with a promotion on day 3.
\<close>

definition train_base :: "row list" where
  "train_base =
     map (\<lambda>d. \<lparr>Store = Some 1, Date = Some d, SchoolHoliday = 0, StateHoliday = 0,
                 Promo = 0, Sales = 3\<rparr>) [1, 2, 4, 5]"

definition test_day3 :: "row list" where
  "test_day3 =
     [\<lparr>Store = Some 1, Date = Some 3, SchoolHoliday = 0, StateHoliday = 0, Promo = 0, Sales = 0\<rparr>]"

definition train_promo_day2 :: "row list" where
  "train_promo_day2 = train_base[1 := (train_base ! 1)\<lparr>Promo := 1\<rparr>]"

definition train_promo_day4 :: "row list" where
  "train_promo_day4 = train_base[2 := (train_base ! 2)\<lparr>Promo := 1\<rparr>]"

definition test_promo_day3 :: "row list" where
  "test_promo_day3 = test_day3[0 := (test_day3 ! 0)\<lparr>Promo := 1\<rparr>]"

section \<open>Facts about the calendar model\<close>

lemma days_before_month_cases:
  assumes "1 \<le> m" "m \<le> 12"
  shows "days_before_month y m =
    (if m = 1 then 0 else if m = 2 then 31 else
     (if is_leap y then 1 else 0) +
     (if m = 3 then 59 else if m = 4 then 90 else if m = 5 then 120 else if m = 6 then 151
      else if m = 7 then 181 else if m = 8 then 212 else if m = 9 then 243
      else if m = 10 then 273 else if m = 11 then 304 else 334))"
proof -
  from assms have "m = 1 \<or> m = 2 \<or> m = 3 \<or> m = 4 \<or> m = 5 \<or> m = 6 \<or> m = 7
      \<or> m = 8 \<or> m = 9 \<or> m = 10 \<or> m = 11 \<or> m = 12"
    by arith
  then show ?thesis
    by (elim disjE) (simp_all add: days_before_month_def days_in_month_def
        upt_conv_Cons numeral_eq_Suc)
qed

lemma days_since_jan1_eq:
  "days_since_jan1 c = int (days_before_month (year c) (month c)) + int (day c) - 1"
  by (simp add: days_since_jan1_def ordinal_def Year_jan1_def days_before_month_def)

lemma days_since_jan1_bounds:
  assumes "valid_date c"
  shows "0 \<le> days_since_jan1 c" and "days_since_jan1 c \<le> 365"
proof -
  from assms have m: "1 \<le> month c" "month c \<le> 12"
    and d: "1 \<le> day c" "day c \<le> days_in_month (year c) (month c)"
    by (simp_all add: valid_date_def)
  show "0 \<le> days_since_jan1 c"
    using d by (simp add: days_since_jan1_eq)
  from m have "month c = 1 \<or> month c = 2 \<or> month c = 3 \<or> month c = 4 \<or> month c = 5
      \<or> month c = 6 \<or> month c = 7 \<or> month c = 8 \<or> month c = 9 \<or> month c = 10
      \<or> month c = 11 \<or> month c = 12"
    by arith
  then show "days_since_jan1 c \<le> 365"
    using d
    by (elim disjE)
       (simp_all add: days_since_jan1_eq days_before_month_cases days_in_month_def
          split: if_splits)
qed

lemma astype_int16_id: "- 32768 \<le> x \<Longrightarrow> x < 32768 \<Longrightarrow> astype_int16 x = x"
  by (simp add: astype_int16_def)

lemma Week_raw_eq:
  assumes "valid_date c"
  shows "Week_raw c = days_since_jan1 c div 7 + 1"
proof -
  from days_since_jan1_bounds [OF assms]
  have b: "0 \<le> days_since_jan1 c" "days_since_jan1 c \<le> 365" .
  then have q: "0 \<le> days_since_jan1 c div 7" "days_since_jan1 c div 7 \<le> 52"
    by simp_all
  from b have "trunc_div (days_since_jan1 c) 7 = days_since_jan1 c div 7"
    by (simp add: trunc_div_def)
  with q show ?thesis
    by (simp add: Week_raw_def astype_int16_id)
qed

section \<open>Facts about the event-distance cell\<close>

lemma length_diff: "length (diff xs) = length xs"
  by (cases xs) (simp_all add: diff_def)



lemma length_first_indices: "length (first_indices pdf) = length pdf"
  by (simp add: first_indices_def length_diff)

lemma length_last_indices: "length (last_indices pdf) = (if pdf = [] then 1 else length pdf)"
  by (cases pdf) (simp_all add: last_indices_def length_diff diff_def)

lemma idx_mask_Nil: "idx_mask [] = Inl ValueError"
  by (simp add: idx_mask_def length_first_indices length_last_indices)



lemma idx_mask_Inr: "pdf \<noteq> [] \<Longrightarrow> idx_mask pdf = Inr (map2 (\<lambda>f l. \<not> (f \<or> fill_bool l)) (first_indices pdf) (last_indices pdf))"
  by (simp add: idx_mask_def length_first_indices length_last_indices)

lemma idx_mask_nth:
  assumes "idx_mask pdf = Inr msk" "i < length pdf"
  shows "length msk = length pdf"
    and "msk ! i = (\<not> (first_indices pdf ! i \<or> fill_bool (last_indices pdf ! i)))"
  using assms
  by (auto simp add: idx_mask_def length_first_indices length_last_indices split: if_splits)


lemma length_ffill_from: "length (ffill_from p xs) = length xs"
  by (induction p xs rule: ffill_from.induct) simp_all




lemma length_bfill: "length (bfill xs) = length xs"
  by (induction xs rule: bfill.induct) (auto split: list.splits)

lemma bfill_Cons_Suc: "bfill (x # xs) ! Suc n = bfill xs ! n"
  by (cases x; cases "bfill xs") simp_all

lemma bfill_Cons_0:
  "bfill (x # xs) ! 0 = (case x of Some v \<Rightarrow> Some v | None \<Rightarrow> if xs = [] then None else bfill xs ! 0)"
proof (cases x)
  case None
  show ?thesis
  proof (cases "bfill xs")
    case Nil
    with length_bfill [of xs] have "xs = []" by simp
    with None show ?thesis by simp
  next
    case (Cons y ys)
    with length_bfill [of xs] have "xs \<noteq> []" by auto
    with None Cons show ?thesis by simp
  qed
next
  case (Some v)
  then show ?thesis by simp
qed

lemma bfill_nth_None:
  "i < length xs \<Longrightarrow> (\<And>k. i \<le> k \<Longrightarrow> k < length xs \<Longrightarrow> xs ! k = None) \<Longrightarrow> bfill xs ! i = None"
proof (induction xs arbitrary: i)
  case Nil
  then show ?case by simp
next
  case (Cons x xs)
  have tl_None: "xs ! k = None" if "i - 1 \<le> k" "k < length xs" for k
    using Cons.prems(2) [of "Suc k"] that by simp
  show ?case
  proof (cases i)
    case 0
    from Cons.prems(2) [of 0] 0 have x: "x = None" by simp
    show ?thesis
    proof (cases "xs = []")
      case True
      with x 0 show ?thesis by simp
    next
      case False
      then have "bfill xs ! 0 = None"
        using Cons.IH [of 0] tl_None 0 by simp
      with x 0 False show ?thesis by (simp only: bfill_Cons_0) simp
    qed
  next
    case (Suc n)
    with Cons.prems(1) have "n < length xs" by simp
    then have "bfill xs ! n = None"
      using Cons.IH [of n] tl_None Suc by simp
    with Suc show ?thesis by (simp only: bfill_Cons_Suc)
  qed
qed



lemma length_tmp: "length msk = length pdf \<Longrightarrow> length (tmp field pdf msk) = length pdf"
  by (simp add: tmp_def)



lemma After_nth:
  assumes "idx_mask pdf = Inr msk" "i < length pdf"
  shows "After field pdf msk ! i = opt_sub (Date (pdf ! i)) (ffill (tmp field pdf msk) ! i)"
  using assms idx_mask_nth(1) [OF assms]
  by (simp add: After_def ffill_def length_ffill_from length_tmp)

lemma Before_nth:
  assumes "idx_mask pdf = Inr msk" "i < length pdf"
  shows "Before field pdf msk ! i = opt_sub (bfill (tmp field pdf msk) ! i) (Date (pdf ! i))"
  using assms idx_mask_nth(1) [OF assms]
  by (simp add: Before_def length_bfill length_tmp)









lemma length_After:
  "length msk = length pdf \<Longrightarrow> length (After field pdf msk) = length pdf"
  by (simp add: After_def ffill_def length_ffill_from length_tmp)

lemma length_Before:
  "length msk = length pdf \<Longrightarrow> length (Before field pdf msk) = length pdf"
  by (simp add: Before_def length_bfill length_tmp)

lemma get_elapsed_Inr:
  assumes "pdf \<noteq> []"
  shows "\<exists>msk. idx_mask pdf = Inr msk \<and> length msk = length pdf
     \<and> get_elapsed field pdf = Inr (zip (After field pdf msk) (Before field pdf msk))"
proof -
  from idx_mask_Inr [OF assms] obtain msk where m: "idx_mask pdf = Inr msk" by blast
  from assms have "0 < length pdf" by simp
  from idx_mask_nth(1) [OF m this] m show ?thesis
    by (simp add: get_elapsed_def)
qed


lemma opt_sub_None [simp]: "opt_sub a None = None" "opt_sub None b = None"
  by (cases a) simp_all

lemma length_sort_values: "length (sort_values_Store_Date df) = length df"
  by (simp add: sort_values_Store_Date_def)




lemma sort_null_keys:
  "sort_values_Store_Date null_keys =
     [\<lparr>Store = Some 1, Date = Some 2, SchoolHoliday = 0, StateHoliday = 0, Promo = 0, Sales = 6\<rparr>,
      \<lparr>Store = Some 1, Date = None, SchoolHoliday = 0, StateHoliday = 0, Promo = 1, Sales = 5\<rparr>,
      \<lparr>Store = None, Date = Some 3, SchoolHoliday = 0, StateHoliday = 0, Promo = 0, Sales = 7\<rparr>]"
  by (simp add: sort_values_Store_Date_def null_keys_def na_last_def)

lemmas elapsed_defs =
  event_distance_def get_elapsed_def idx_mask_def first_indices_def last_indices_def diff_def
  fill_bool_def After_def Before_def tmp_def ffill_def anchor_def group_first_def group_last_def

section \<open>Facts about the left outer join\<close>

lemma merge_Nil: "merge [] right left_on right_on = []"
  by (simp add: merge_def)

lemma merge_Cons:
  "merge (l # df) right left_on right_on =
     (case matches right_on right (left_on l) of
        [] \<Rightarrow> [(l, None)]
      | ms \<Rightarrow> map (\<lambda>r. (l, Some r)) ms) @ merge df right left_on right_on"
  by (simp add: merge_def)

lemma length_merge:
  "length (merge df right left_on right_on) =
     sum_list (map (\<lambda>l. max 1 (length (matches right_on right (left_on l)))) df)"
  by (induction df) (simp_all add: merge_Nil merge_Cons split: list.split)

lemma sum_list_max1_ge: "length xs \<le> sum_list (map (\<lambda>l. max 1 (f l)) xs)"
  by (induction xs) (simp_all add: max_def)

lemma sum_list_max1_eq:
  "sum_list (map (\<lambda>l. max 1 (f l)) xs) = length xs \<longleftrightarrow> (\<forall>l\<in>set xs. f l \<le> (1::nat))"
proof (induction xs)
  case Nil
  then show ?case by simp
next
  case (Cons x xs)
  from sum_list_max1_ge [of xs f] Cons show ?case
    by (auto simp add: max_def)
qed

lemma distinct_matches_le1:
  "distinct (map right_on right) \<Longrightarrow> length (matches right_on right k) \<le> 1"
proof (induction right)
  case Nil
  then show ?case by (simp add: matches_def)
next
  case (Cons r rs)
  show ?case
  proof (cases "right_on r = k")
    case True
    with Cons.prems have "filter (\<lambda>r. right_on r = k) rs = []"
      by (auto simp add: filter_empty_conv image_iff)
    with True show ?thesis by (simp add: matches_def)
  next
    case False
    with Cons show ?thesis by (simp add: matches_def)
  qed
qed

lemma map_fst_merge:
  "map fst (merge df right left_on right_on) =
     concat (map (\<lambda>l. replicate (max 1 (length (matches right_on right (left_on l)))) l) df)"
  by (induction df) (simp_all add: merge_Nil merge_Cons comp_def map_replicate_const split: list.split)

section \<open>Facts about the rolling sums\<close>

lemma length_rolling_sum: "length (rolling_sum w xs) = length xs"
  by (simp add: rolling_sum_def)

lemma rolling_sum_nth:
  "p < length xs \<Longrightarrow> rolling_sum w xs ! p = sum_list (drop (Suc p - w) (take (Suc p) xs))"
  by (simp add: rolling_sum_def)




lemma rolling_sum_rev_nth:
  assumes "i < length xs"
  shows "rolling_sum w (rev xs) ! (length xs - 1 - i) = leading_window_sum w xs i"
proof -
  let ?n = "length xs"
  let ?p = "?n - 1 - i"
  from assms have p: "?p < length (rev xs)" "Suc ?p = ?n - i" by simp_all
  have t: "take (Suc ?p) (rev xs) = rev (drop i xs)"
    using assms p(2) by (simp add: take_rev)
  have "drop (Suc ?p - w) (rev (drop i xs)) = rev (take (length (drop i xs) - (Suc ?p - w)) (drop i xs))"
    by (simp only: drop_rev)
  moreover have "take (length (drop i xs) - (Suc ?p - w)) (drop i xs) = take w (drop i xs)"
  proof (cases "w \<le> Suc ?p")
    case True
    with p(2) have "length (drop i xs) - (Suc ?p - w) = w" by simp
    then show ?thesis by (simp only:)
  next
    case False
    with p(2) have l: "length (drop i xs) \<le> w"
      and "length (drop i xs) - (Suc ?p - w) = length (drop i xs)"
      by simp_all
    then have "take (length (drop i xs) - (Suc ?p - w)) (drop i xs) = drop i xs"
      by (simp only: take_all order_refl)
    also from l have "\<dots> = take w (drop i xs)" by (simp only: take_all)
    finally show ?thesis .
  qed
  ultimately have "sum_list (drop (Suc ?p - w) (take (Suc ?p) (rev xs))) = sum_list (take w (drop i xs))"
    using t by (simp only: sum_list_rev)
  with rolling_sum_nth [OF p(1), of w] show ?thesis
    by (simp add: leading_window_sum_def)
qed

lemma set_map_filter_Some: "set (List.map_filter f xs) = {y. \<exists>x\<in>set xs. f x = Some y}"
  by (induction xs) (auto simp add: map_filter_simps split: option.splits)

lemma set_group_keys: "set (group_keys df) = {s. \<exists>r\<in>set df. Store r = Some s}"
  by (simp add: group_keys_def set_map_filter_Some)

lemma distinct_group_keys: "distinct (group_keys df)"
  by (simp add: group_keys_def)

lemma get_group_empty: "s \<notin> set (group_keys df) \<Longrightarrow> get_group s df = []"
  by (simp add: set_group_keys get_group_def filter_empty_conv)


lemma of_store_group_rolling:
  "of_store s (group_rolling field (get_group s' df)) =
     (if s' = s then group_rolling field (get_group s df) else [])"
proof -
  have "fst (fst kv) = Some s'" if "kv \<in> set (group_rolling field (get_group s' df))" for kv
  proof -
    from that have "fst kv \<in> set (map row_key (get_group s' df))"
      unfolding group_rolling_def by (metis prod.collapse set_zip_leftD)
    then show ?thesis by (auto simp add: row_key_def get_group_def)
  qed
  then have "filter (\<lambda>kv. fst (fst kv) = Some s) (group_rolling field (get_group s' df)) =
      (if s' = s then group_rolling field (get_group s' df) else [])"
    by (auto simp add: filter_empty_conv filter_id_conv)
  then show ?thesis by (simp add: of_store_def)
qed

lemma concat_single_block:
  "distinct ks \<Longrightarrow> concat (map (\<lambda>k. if k = s then B else []) ks) = (if s \<in> set ks then B else [])"
  by (induction ks) auto

lemma of_store_groupby_rolling:
  "of_store s (groupby_rolling field df) = group_rolling field (get_group s df)"
proof -
  have "of_store s (groupby_rolling field df) =
      concat (map (\<lambda>s'. of_store s (group_rolling field (get_group s' df))) (group_keys df))"
    by (simp add: groupby_rolling_def of_store_def filter_concat comp_def)
  also have "\<dots> = concat (map (\<lambda>s'. if s' = s then group_rolling field (get_group s df) else [])
      (group_keys df))"
    by (simp only: of_store_group_rolling)
  also have "\<dots> = (if s \<in> set (group_keys df) then group_rolling field (get_group s df) else [])"
    by (rule concat_single_block [OF distinct_group_keys])
  also have "\<dots> = group_rolling field (get_group s df)"
    by (simp add: get_group_empty group_rolling_def)
  finally show ?thesis .
qed



lemma set_sort_index: "set (sort_index df) = set df" "set (sort_index_desc df) = set df"
  by (simp_all add: sort_index_def sort_index_desc_def)



lemma na_last_eq_iff: "na_last a = na_last b \<longleftrightarrow> a = b"
  by (cases a; cases b) (simp_all add: na_last_def)

lemma na_last_desc_eq_iff: "na_last_desc a = na_last_desc b \<longleftrightarrow> a = b"
  by (cases a; cases b) (simp_all add: na_last_desc_def)

lemma sort_index_desc_sort_index: "sort_index_desc (sort_index xs) = sort_index_desc xs"
proof -
  let ?ka = "\<lambda>r. na_last (Date r)" and ?kd = "\<lambda>r. na_last_desc (Date r)"
  let ?ys = "sort_key ?kd (sort_key ?ka xs)"
  have "sort_key ?kd xs = ?ys"
  proof (rule properties_for_sort_key)
    show "mset ?ys = mset xs" by simp
    show "sorted (map ?kd ?ys)" by simp
    fix k assume "k \<in> set ?ys"
    have "filter (\<lambda>x. ?kd k = ?kd x) ?ys = filter (\<lambda>x. ?kd x = ?kd k) ?ys"
      by (rule filter_cong) auto
    also have "\<dots> = filter (\<lambda>x. ?kd x = ?kd k) (sort_key ?ka xs)"
      by (rule sort_key_stable)
    also have "\<dots> = filter (\<lambda>x. ?ka x = ?ka k) (sort_key ?ka xs)"
      by (rule filter_cong) (simp_all only: na_last_eq_iff na_last_desc_eq_iff)
    also have "\<dots> = filter (\<lambda>x. ?ka x = ?ka k) xs"
      by (rule sort_key_stable)
    also have "\<dots> = filter (\<lambda>x. ?kd k = ?kd x) xs"
      by (rule filter_cong) (auto simp only: na_last_eq_iff na_last_desc_eq_iff)
    finally show "filter (\<lambda>x. ?kd k = ?kd x) ?ys = filter (\<lambda>x. ?kd k = ?kd x) xs" .
  qed
  then show ?thesis by (simp add: sort_index_def sort_index_desc_def)
qed

lemma get_group_sort_index: "get_group s (sort_index df) = sort_index (get_group s df)"
  by (simp add: get_group_def sort_index_def filter_sort)

lemma get_group_sort_index_desc:
  "get_group s (sort_index_desc df) = sort_index_desc (get_group s (sort_index df))"
proof -
  have "get_group s (sort_index_desc df) = sort_index_desc (get_group s df)"
    by (simp add: get_group_def sort_index_desc_def filter_sort)
  also have "\<dots> = sort_index_desc (sort_index (get_group s df))"
    by (simp only: sort_index_desc_sort_index)
  finally show ?thesis by (simp only: get_group_sort_index)
qed

lemma sort_index_desc_rev:
  assumes d: "\<forall>r\<in>set g. Date r \<noteq> None" and dist: "distinct (map Date g)"
  shows "sort_index_desc g = rev (sort_index g)"
proof -
  let ?ka = "\<lambda>r. na_last (Date r)" and ?kd = "\<lambda>r. na_last_desc (Date r)"
  let ?xs = "sort_key ?kd g" and ?ys = "rev (sort_key ?ka g)"
  have inj: "inj_on ?kd (set g)"
  proof (rule inj_onI)
    fix x y assume "x \<in> set g" "y \<in> set g" "?kd x = ?kd y"
    then have "Date x = Date y" by (simp only: na_last_desc_eq_iff)
    with dist \<open>x \<in> set g\<close> \<open>y \<in> set g\<close> show "x = y"
      by (meson distinct_map inj_onD)
  qed
  from dist have dg: "distinct g" by (simp add: distinct_map)
  have "?xs = ?ys"
  proof (rule map_sorted_distinct_set_unique [of ?kd])
    show "inj_on ?kd (set ?xs \<union> set ?ys)" using inj by simp
    show "sorted (map ?kd ?xs)" by simp
    show "distinct (map ?kd ?xs)" using inj dg by (simp add: distinct_map)
    show "distinct (map ?kd ?ys)" using inj dg by (simp add: distinct_map)
    show "set ?xs = set ?ys" by simp
    have "sorted_wrt (\<lambda>x y. ?ka x \<le> ?ka y) (sort_key ?ka g)"
      using sorted_sort_key [of ?ka g] by (simp only: sorted_map)
    then have "sorted_wrt (\<lambda>x y. ?kd y \<le> ?kd x) (sort_key ?ka g)"
    proof (rule sorted_wrt_mono_rel [rotated])
      fix x y assume xy: "x \<in> set (sort_key ?ka g)" "y \<in> set (sort_key ?ka g)"
        and le: "?ka x \<le> ?ka y"
      from xy d have "Date x \<noteq> None" "Date y \<noteq> None" by simp_all
      then obtain a b where "Date x = Some a" "Date y = Some b" by blast
      with le show "?kd y \<le> ?kd x" by (simp add: na_last_def na_last_desc_def)
    qed
    then show "sorted (map ?kd ?ys)"
      by (simp add: sorted_map sorted_wrt_rev)
  qed
  then show ?thesis by (simp add: sort_index_def sort_index_desc_def)
qed

lemma length_group_rolling: "length (group_rolling field g) = length g"
  by (simp add: group_rolling_def length_rolling_sum)

lemma group_rolling_nth:
  "p < length g \<Longrightarrow> group_rolling field g ! p = (row_key (g ! p), rolling_sum 7 (map field g) ! p)"
  by (simp add: group_rolling_def length_rolling_sum)

section \<open>Facts about the split\<close>

lemma split_positive:
  assumes "0 < n"
  shows "split n t = (take (length t - n) t, drop (length t - n) t)"
    and "fst (split n t) @ snd (split n t) = t"
    and "length (snd (split n t)) = min n (length t)"
  using assms by (simp_all add: split_def slice_to_minus_def slice_from_minus_def)

lemma split_positive_ordered:
  assumes "0 < n" and "sorted (map (\<lambda>r. na_last (Date r)) t)"
    and "x \<in> set (fst (split n t))" and "y \<in> set (snd (split n t))"
  shows "na_last (Date x) \<le> na_last (Date y)"
proof -
  from split_positive(2) [OF assms(1), of t] assms(2)
  have "sorted (map (\<lambda>r. na_last (Date r)) (fst (split n t)) @ map (\<lambda>r. na_last (Date r)) (snd (split n t)))"
    by (metis map_append)
  with assms(3,4) show ?thesis
    by (auto simp add: sorted_append)
qed

lemma split_zero: "split 0 t = ([], t)"
  by (simp add: split_def slice_to_minus_def slice_from_minus_def)

section \<open>Claims\<close>









text \<open>
  C4. For every group and indicator column \<open>F\<close>: the trailing sums \<open><F>_bw\<close> of the group are
  the windowed sums over the group's rows in ascending date order, and the leading sums
  \<open><F>_fw\<close> are the same windowed sums over the group's rows sorted by descending date.
  When the dates of the group are present and distinct, this descending sequence is the
  reversed ascending sequence, and \<open><F>_fw\<close> at the row in ascending position \<open>i\<close> is the sum
  of \<open>F\<close> over the seven rows from \<open>i\<close> on (fewer at the end of the group).
\<close>

theorem fwd_is_bwd_on_reversed_group:
  "of_store s (bwd field df) = group_rolling field (get_group s (sort_index df))
   \<and> of_store s (fwd field df) = group_rolling field (sort_index_desc (get_group s (sort_index df)))
   \<and> ((\<forall>r\<in>set (get_group s df). Date r \<noteq> None) \<and> distinct (map Date (get_group s df)) \<longrightarrow>
        of_store s (fwd field df) = group_rolling field (rev (get_group s (sort_index df)))
        \<and> (\<forall>i<length (get_group s df).
              of_store s (fwd field df) ! (length (get_group s df) - 1 - i) =
                (row_key (get_group s (sort_index df) ! i),
                 leading_window_sum 7 (map field (get_group s (sort_index df))) i)))"
proof (intro conjI impI allI)
  let ?g = "get_group s (sort_index df)"
  show "of_store s (bwd field df) = group_rolling field ?g"
    by (simp add: bwd_def of_store_groupby_rolling)
  show f: "of_store s (fwd field df) = group_rolling field (sort_index_desc ?g)"
    by (simp add: fwd_def of_store_groupby_rolling get_group_sort_index_desc)
  assume a: "(\<forall>r\<in>set (get_group s df). Date r \<noteq> None) \<and> distinct (map Date (get_group s df))"
  have len: "length ?g = length (get_group s df)"
    unfolding get_group_sort_index by (simp add: sort_index_def)
  have "sort_index_desc (sort_index (get_group s df)) = rev (sort_index (sort_index (get_group s df)))"
  proof (rule sort_index_desc_rev)
    show "\<forall>r\<in>set (sort_index (get_group s df)). Date r \<noteq> None"
      using a by (simp add: set_sort_index)
    have "mset (map Date (sort_index (get_group s df))) = mset (map Date (get_group s df))"
      by (simp add: sort_index_def)
    with a show "distinct (map Date (sort_index (get_group s df)))"
      by (metis mset_eq_imp_distinct_iff)
  qed
  moreover have "sort_index (sort_index (get_group s df)) = sort_index (get_group s df)"
    by (simp add: sort_index_def sort_key_id_if_sorted)
  ultimately have r: "sort_index_desc ?g = rev ?g"
    by (simp only: get_group_sort_index)
  with f show fr: "of_store s (fwd field df) = group_rolling field (rev ?g)"
    by simp
  fix i assume i: "i < length (get_group s df)"
  with len have i': "i < length (map field ?g)" and p: "length ?g - 1 - i < length (rev ?g)"
    by simp_all
  have "group_rolling field (rev ?g) ! (length ?g - 1 - i) =
      (row_key (rev ?g ! (length ?g - 1 - i)), rolling_sum 7 (map field (rev ?g)) ! (length ?g - 1 - i))"
    by (rule group_rolling_nth [OF p])
  moreover have "rev ?g ! (length ?g - 1 - i) = ?g ! i"
    using i len by (simp add: rev_nth)
  moreover have "rolling_sum 7 (map field (rev ?g)) ! (length ?g - 1 - i) =
      leading_window_sum 7 (map field ?g) i"
    using rolling_sum_rev_nth [OF i', of 7] by (simp add: rev_map)
  ultimately show "of_store s (fwd field df) ! (length (get_group s df) - 1 - i) =
      (row_key (?g ! i), leading_window_sum 7 (map field ?g) i)"
    using fr len by simp
qed

theorem fwd_is_bwd_on_reversed_group_witness:
  "of_store 1 (fwd Promo long_store) ! 8 = ((Some 1, Some 1), 2)
   \<and> of_store 1 (fwd Promo long_store) ! 6 = ((Some 1, Some 3), 2)
   \<and> of_store 1 (fwd Promo long_store) ! 0 = ((Some 1, Some 9), 1)"
proof -
  have g: "get_group 1 long_store = long_store"
    by (simp add: get_group_def long_store_def)
  have d: "(\<forall>r\<in>set (get_group 1 long_store). Date r \<noteq> None) \<and> distinct (map Date (get_group 1 long_store))"
    unfolding g by (simp add: long_store_def)
  have l: "length (get_group 1 long_store) = 9"
    unfolding g by (simp add: long_store_def)
  have e: "row_key (get_group 1 (sort_index long_store) ! 0) = (Some 1, Some 1)"
    "row_key (get_group 1 (sort_index long_store) ! 2) = (Some 1, Some 3)"
    "row_key (get_group 1 (sort_index long_store) ! 8) = (Some 1, Some 9)"
    "leading_window_sum 7 (map Promo (get_group 1 (sort_index long_store))) 0 = 2"
    "leading_window_sum 7 (map Promo (get_group 1 (sort_index long_store))) 2 = 2"
    "leading_window_sum 7 (map Promo (get_group 1 (sort_index long_store))) 8 = 1"
    by code_simp+
  from fwd_is_bwd_on_reversed_group [of 1 Promo long_store] d
  have "\<forall>i<length (get_group 1 long_store).
      of_store 1 (fwd Promo long_store) ! (length (get_group 1 long_store) - 1 - i) =
        (row_key (get_group 1 (sort_index long_store) ! i),
         leading_window_sum 7 (map Promo (get_group 1 (sort_index long_store))) i)"
    by blast
  from this [rule_format, of 0] this [rule_format, of 2] this [rule_format, of 8] l e
  show ?thesis by simp
qed



text \<open>
  C6. For every (valid) date, the derived \<open>Week\<close> column equals
  \<open>floor(days_since_jan1 / 7) + 1\<close> with a resulting value of 53 replaced by 52; hence
  \<open>Week\<close> lies in \<open>[1, 52]\<close> and is never 53.
\<close>

theorem Week_clamp:
  assumes "valid_date c"
  shows "Week c = (let w = days_since_jan1 c div 7 + 1 in if w = 53 then 52 else w)
       \<and> 1 \<le> Week c \<and> Week c \<le> 52 \<and> Week c \<noteq> 53"
proof -
  from days_since_jan1_bounds [OF assms]
  have b: "0 \<le> days_since_jan1 c" "days_since_jan1 c \<le> 365" .
  then have q: "0 \<le> days_since_jan1 c div 7" "days_since_jan1 c div 7 \<le> 52"
    by simp_all
  show ?thesis
    using q by (simp add: Week_def Week_raw_eq [OF assms] Let_def)
qed

theorem Week_clamp_witness:
  "valid_date \<lparr>year = 2016, month = 12, day = 31\<rparr>
   \<and> days_since_jan1 \<lparr>year = 2016, month = 12, day = 31\<rparr> = 365
   \<and> Week \<lparr>year = 2016, month = 12, day = 31\<rparr> = 52"
proof -
  have v: "valid_date \<lparr>year = 2016, month = 12, day = 31\<rparr>"
    by (simp add: valid_date_def days_in_month_def)
  have d: "days_since_jan1 \<lparr>year = 2016, month = 12, day = 31\<rparr> = 365"
    by (simp add: days_since_jan1_eq days_before_month_cases is_leap_def)
  from Week_clamp [OF v] d show ?thesis
    using v by (simp add: Let_def)
qed

text \<open>
  C7 (as stated: \<open>len(join(left, right, k)) >= len(left)\<close>, with equality if and only if
  the right table has unique keys). Equality does not need unique keys: a left table of
  one row whose key is not in the right table gives one output row, and the right table
  holds the key 2 twice.
\<close>

theorem merge_equal_length_duplicate_right_keys:
  "length (merge [1 :: int] [(2 :: int, ''a''), (2, ''b'')] id fst) = length [1 :: int]
   \<and> \<not> distinct (map fst [(2 :: int, ''a''), (2, ''b'')])"
  by (simp add: merge_def matches_def)

text \<open>
  C7 (amended). For all tables and keys, \<open>len(merge(left, right, k)) >= len(left)\<close>, with
  equality if and only if no row of \<open>left\<close> matches more than one row of \<open>right\<close>, which
  holds in particular when the right table has unique keys; every row of \<open>left\<close> appears
  in the output once for each matching right row, and once when no right row matches.
\<close>

theorem merge_cardinality:
  "length df \<le> length (merge df right left_on right_on)
   \<and> (length (merge df right left_on right_on) = length df
        \<longleftrightarrow> (\<forall>l\<in>set df. length (matches right_on right (left_on l)) \<le> 1))
   \<and> (distinct (map right_on right) \<longrightarrow> length (merge df right left_on right_on) = length df)
   \<and> map fst (merge df right left_on right_on) =
       concat (map (\<lambda>l. replicate (max 1 (length (matches right_on right (left_on l)))) l) df)"
proof (intro conjI impI)
  show "length df \<le> length (merge df right left_on right_on)"
    unfolding length_merge by (rule sum_list_max1_ge)
  show eq: "length (merge df right left_on right_on) = length df
      \<longleftrightarrow> (\<forall>l\<in>set df. length (matches right_on right (left_on l)) \<le> 1)"
    unfolding length_merge by (rule sum_list_max1_eq)
  show "length (merge df right left_on right_on) = length df" if "distinct (map right_on right)"
    using eq distinct_matches_le1 [OF that] by blast
  show "map fst (merge df right left_on right_on) =
       concat (map (\<lambda>l. replicate (max 1 (length (matches right_on right (left_on l)))) l) df)"
    by (rule map_fst_merge)
qed

theorem merge_cardinality_witness:
  "map fst (merge [1, 2, 3 :: int] [(1 :: int, ''a''), (1, ''b''), (3, ''c'')] id fst) = [1, 1, 2, 3]
   \<and> length (merge [1, 2, 3 :: int] [(1 :: int, ''a''), (3, ''c'')] id fst) = 3"
proof -
  have d: "distinct (map fst [(1 :: int, ''a''), (3, ''c'')])"
    by simp
  from merge_cardinality [of "[1, 2, 3 :: int]" "[(1 :: int, ''a''), (1, ''b''), (3, ''c'')]" id fst]
    merge_cardinality [of "[1, 2, 3 :: int]" "[(1 :: int, ''a''), (3, ''c'')]" id fst] d
  show ?thesis
    by (simp add: matches_def)
qed

text \<open>
  C8. After the sort by date, the split is meant to give \<open>valid\<close> = the last \<open>cut_count\<close> rows
  and \<open>train\<close> = the rows before them. The slices \<open>train_df[-num_valid:]\<close> and
  \<open>train_df[:-num_valid]\<close> do so for a positive count (\<open>split_positive\<close>,
  \<open>split_positive_ordered\<close>), but for the count 0 the bound \<open>-0\<close> is the start of the table:
  with an empty test table and a train table whose first date occurs once, \<open>cut\<close> is 0,
  \<open>valid\<close> gets every row and \<open>train\<close> none, where the last 0 rows are no row at all.
\<close>

theorem zero_cut_puts_every_row_in_valid:
  "cut (prepare_train two_days) [] = Inr 0
   \<and> length (prepare_train two_days) = 2
   \<and> train_valid two_days [] = Inr ([], prepare_train two_days)"
proof -
  have p: "prepare_train two_days =
     [\<lparr>Store = Some 1, Date = Some 1, SchoolHoliday = 0, StateHoliday = 0, Promo = 1, Sales = 7\<rparr>,
      \<lparr>Store = Some 1, Date = Some 2, SchoolHoliday = 0, StateHoliday = 0, Promo = 0, Sales = 5\<rparr>]"
    by (simp add: prepare_train_def sort_values_Date_def two_days_def na_last_def)
  have c: "cut (prepare_train two_days) [] = Inr 0"
    unfolding p by (simp add: cut_def)
  show ?thesis
    using c by (simp add: train_valid_def split_zero) (simp add: p)
qed

text \<open>
  C9 (as stated: the event-distance computation fails with a \<open>GroupingError\<close> whenever the
  group key or the time key holds a null). The notebook checks no key and has no such
  error: on \<open>null_keys\<close>, with a null date in one row and a null store in another, the
  computation returns its delta columns.
\<close>

theorem null_keys_not_rejected:
  "Date (null_keys ! 0) = None \<and> Store (null_keys ! 1) = None
   \<and> event_distance Promo null_keys = Inr [(Some 0, Some 0), (None, None), (Some 0, Some 0)]"
proof (intro conjI)
  show "Date (null_keys ! 0) = None" and "Store (null_keys ! 1) = None"
    by (simp_all add: null_keys_def)
  show "event_distance Promo null_keys = Inr [(Some 0, Some 0), (None, None), (Some 0, Some 0)]"
    by (simp add: sort_null_keys elapsed_defs)
qed

text \<open>
  C9 (amended). The event-distance computation does not validate its keys: on every
  non-empty table, also one with nulls in the group key or the time key, it returns a
  pair of deltas for each row, and a row whose time key is null gets null deltas; it
  fails only on the empty table, with the \<open>ValueError\<close> of the index assignment.
\<close>

theorem event_distance_no_key_validation:
  "(df = [] \<longrightarrow> event_distance field df = Inl ValueError)
   \<and> (df \<noteq> [] \<longrightarrow> (\<exists>res. event_distance field df = Inr res \<and> length res = length df
     \<and> (\<forall>i<length df. Date (sort_values_Store_Date df ! i) = None \<longrightarrow> res ! i = (None, None))))"
proof (intro conjI impI)
  assume "df = []"
  then show "event_distance field df = Inl ValueError"
    by (simp add: event_distance_def sort_values_Store_Date_def get_elapsed_def idx_mask_Nil)
next
  assume assms: "df \<noteq> []"
  let ?pdf = "sort_values_Store_Date df"
  from assms have ne: "?pdf \<noteq> []"
    using length_sort_values [of df] by (metis length_0_conv)
  from get_elapsed_Inr [OF ne, of field] obtain msk where
    m: "idx_mask ?pdf = Inr msk" "length msk = length ?pdf"
      "get_elapsed field ?pdf = Inr (zip (After field ?pdf msk) (Before field ?pdf msk))"
    by blast
  let ?res = "zip (After field ?pdf msk) (Before field ?pdf msk)"
  have "?res ! i = (None, None)" if "i < length df" "Date (?pdf ! i) = None" for i
  proof -
    from that have i: "i < length ?pdf" by (simp add: length_sort_values)
    from After_nth [OF m(1) i, of field] Before_nth [OF m(1) i, of field] that(2) i m(2)
    show ?thesis by (simp add: length_After length_Before)
  qed
  moreover have "length ?res = length df"
    using m(2) by (simp add: length_After length_Before length_sort_values)
  ultimately show "\<exists>res. event_distance field df = Inr res \<and> length res = length df
     \<and> (\<forall>i<length df. Date (sort_values_Store_Date df ! i) = None \<longrightarrow> res ! i = (None, None))"
    using m(3) by (simp add: event_distance_def)
qed

theorem event_distance_no_key_validation_witness:
  "\<exists>res. event_distance Promo null_keys = Inr res \<and> length res = 3 \<and> res ! 1 = (None, None)"
proof -
  have ne: "null_keys \<noteq> []" and len: "length null_keys = 3"
    by (simp_all add: null_keys_def)
  have d: "Date (sort_values_Store_Date null_keys ! 1) = None"
    by (simp add: sort_null_keys)
  from event_distance_no_key_validation [of null_keys Promo] ne
  obtain res where "event_distance Promo null_keys = Inr res" "length res = length null_keys"
    "\<forall>i<length null_keys. Date (sort_values_Store_Date null_keys ! i) = None \<longrightarrow> res ! i = (None, None)"
    by blast
  with len d show ?thesis by auto
qed

text \<open>
  C10. The delta and rolling columns are computed over \<open>train_df.append(test_df)\<close> and
  joined back by store and date, so the derived values of a test row depend on the train
  rows of its store, and those of a train row on the test rows. For the unchanged test
  row of day 3: a promotion set on the train row of day 2 changes \<open>After\<close> and the trailing
  sum, one set on the train row of day 4 changes \<open>Before\<close> and the leading sum; and a
  promotion set on the test row changes the derived values of the train rows.
\<close>

theorem test_features_depend_on_train_rows:
  "test_features Promo train_base test_day3 =
     Inr [Some \<lparr>After_F = Some 2, Before_F = Some 2, F_bw = Some 0, F_fw = Some 0\<rparr>]
   \<and> test_features Promo train_promo_day2 test_day3 =
     Inr [Some \<lparr>After_F = Some 1, Before_F = Some 2, F_bw = Some 1, F_fw = Some 0\<rparr>]
   \<and> test_features Promo train_promo_day4 test_day3 =
     Inr [Some \<lparr>After_F = Some 2, Before_F = Some 1, F_bw = Some 0, F_fw = Some 1\<rparr>]
   \<and> train_features Promo train_base test_day3 =
     Inr [Some \<lparr>After_F = Some 0, Before_F = Some 0, F_bw = Some 0, F_fw = Some 0\<rparr>,
          Some \<lparr>After_F = Some 1, Before_F = Some 3, F_bw = Some 0, F_fw = Some 0\<rparr>,
          Some \<lparr>After_F = Some 3, Before_F = Some 1, F_bw = Some 0, F_fw = Some 0\<rparr>,
          Some \<lparr>After_F = Some 0, Before_F = Some 0, F_bw = Some 0, F_fw = Some 0\<rparr>]
   \<and> train_features Promo train_base test_promo_day3 =
     Inr [Some \<lparr>After_F = Some 0, Before_F = Some 0, F_bw = Some 0, F_fw = Some 1\<rparr>,
          Some \<lparr>After_F = Some 1, Before_F = Some 1, F_bw = Some 0, F_fw = Some 1\<rparr>,
          Some \<lparr>After_F = Some 1, Before_F = Some 1, F_bw = Some 1, F_fw = Some 0\<rparr>,
          Some \<lparr>After_F = Some 0, Before_F = Some 0, F_bw = Some 1, F_fw = Some 0\<rparr>]"
  by (intro conjI; code_simp)

end
